theory Spec2Isabelle
  imports Complex_Main
begin

section \<open>The SO100 direct joint controller\<close>

text \<open>
  A shallow embedding of \<^verbatim>\<open>main\<close> in \<^verbatim>\<open>so100_direct_controller.py\<close>: the start-up read of
  the six joints, the command loop and the disconnect in the \<^verbatim>\<open>finally\<close> clause.

  Modelling decisions.
  \<^item> A Python \<^verbatim>\<open>str\<close> is a \<open>string\<close> whose characters are the code points 0 to 255.
  \<^item> A Python \<^verbatim>\<open>float\<close> is a \<open>real\<close>: infinities and NaN are outside the model. What the
    interpreter computes on floats is a parameter \<open>fl\<close> of the model: \<^verbatim>\<open>float(s)\<close> on a
    string (\<open>None\<close> is \<^verbatim>\<open>ValueError\<close>), the sum \<^verbatim>\<open>x + y\<close> and the difference \<^verbatim>\<open>x - y\<close>.
    Nothing is assumed about them: which float a token denotes and how a sum is rounded
    is left to the interpreter.
  \<^item> The robot is the environment: every reply of the motor bus is a function of the
    events issued so far, and the model quantifies over all such functions.
  \<^item> An exception is a value; \<^verbatim>\<open>except Exception\<close> catches exactly the values for which
    \<open>is_Exception\<close> holds.
\<close>

subsection \<open>Python strings\<close>

text \<open>\<^verbatim>\<open>str.isspace\<close> on one character, for the code points below 256.\<close>

definition is_space :: "char \<Rightarrow> bool" where
  "is_space c = (let n = (of_char c :: nat) in
     (9 \<le> n \<and> n \<le> 13) \<or> (28 \<le> n \<and> n \<le> 32) \<or> n = 133 \<or> n = 160)"

text \<open>\<^verbatim>\<open>str.lower\<close> on one character: A to Z, and the upper-case letters of Latin-1.\<close>

definition lower_char :: "char \<Rightarrow> char" where
  "lower_char c = (let n = (of_char c :: nat) in
     if (65 \<le> n \<and> n \<le> 90) \<or> (192 \<le> n \<and> n \<le> 222 \<and> n \<noteq> 215) then char_of (n + 32) else c)"

definition lower :: "string \<Rightarrow> string" where
  "lower s = map lower_char s"

definition strip :: "string \<Rightarrow> string" where
  "strip s = rev (dropWhile is_space (rev (dropWhile is_space s)))"

text \<open>
  \<^verbatim>\<open>str.split()\<close> with no argument: the maximal runs of characters that are not white
  space. The first argument is the word being read.
\<close>

fun split_from :: "string \<Rightarrow> string \<Rightarrow> string list" where
  "split_from w [] = (if w = [] then [] else [w])"
| "split_from w (c # cs) =
     (if is_space c then (if w = [] then split_from [] cs else w # split_from [] cs)
      else split_from (w @ [c]) cs)"

definition py_split :: "string \<Rightarrow> string list" where
  "py_split s = split_from [] s"

definition startswith :: "string \<Rightarrow> string \<Rightarrow> bool" where
  "startswith s p = (take (length p) s = p)"

subsection \<open>Python \<^verbatim>\<open>int(s)\<close> in base ten\<close>

definition is_digit :: "char \<Rightarrow> bool" where
  "is_digit c = (let n = (of_char c :: nat) in 48 \<le> n \<and> n \<le> 57)"

definition digit_val :: "char \<Rightarrow> nat" where
  "digit_val c = of_char c - 48"

text \<open>
  The digits after the first one: a single underscore may stand between two digits.
\<close>

fun digits_from :: "nat \<Rightarrow> string \<Rightarrow> nat option" where
  "digits_from acc [] = Some acc"
| "digits_from acc (c # cs) =
     (if is_digit c then digits_from (acc * 10 + digit_val c) cs
      else if c = CHR ''_'' then
        (case cs of
           [] \<Rightarrow> None
         | d # ds \<Rightarrow> if is_digit d then digits_from (acc * 10 + digit_val d) ds else None)
      else None)"

definition py_digits :: "string \<Rightarrow> nat option" where
  "py_digits s = (case s of
       [] \<Rightarrow> None
     | c # cs \<Rightarrow> if is_digit c then digits_from (digit_val c) cs else None)"

text \<open>
  \<^verbatim>\<open>int(s)\<close>: surrounding white space is dropped, one sign is allowed, then come the
  digits. \<open>None\<close> is \<^verbatim>\<open>ValueError\<close>. The interpreter's optional limit on the number of
  digits is not modelled.
\<close>

definition py_int :: "string \<Rightarrow> int option" where
  "py_int s = (case strip s of
       [] \<Rightarrow> None
     | c # cs \<Rightarrow>
         if c = CHR ''-'' then map_option (\<lambda>n. - int n) (py_digits cs)
         else if c = CHR ''+'' then map_option int (py_digits cs)
         else map_option int (py_digits (c # cs)))"

text \<open>\<^verbatim>\<open>str(n)\<close> for an integer: the decimal numeral, used to write the command \<^verbatim>\<open>j N\<close>.\<close>

definition digit_char :: "nat \<Rightarrow> char" where
  "digit_char d = char_of (48 + d)"

function str_nat :: "nat \<Rightarrow> string" where
  "str_nat n = (if n < 10 then [digit_char n] else str_nat (n div 10) @ [digit_char (n mod 10)])"
  by pat_completeness auto
termination
  by (relation "measure id") auto

definition str_int :: "int \<Rightarrow> string" where
  "str_int i = (if i < 0 then CHR ''-'' # str_nat (nat (- i)) else str_nat (nat i))"

subsection \<open>Exceptions, values and the robot\<close>

text \<open>
  The exceptions that can occur. \<open>Exception m\<close> stands for any other exception derived
  from \<^verbatim>\<open>Exception\<close>, \<open>BaseException m\<close> for any other one that is not
  (\<^verbatim>\<open>SystemExit\<close>, for instance).
\<close>

datatype exn =
    KeyboardInterrupt
  | BaseException string
  | Exception string
  | KeyError string
  | ValueError
  | TypeError
  | EOFError

fun is_Exception :: "exn \<Rightarrow> bool" where
  "is_Exception KeyboardInterrupt = False"
| "is_Exception (BaseException m) = False"
| "is_Exception e = True"

datatype 'a result = Returned 'a | Raised exn

text \<open>
  What \<^verbatim>\<open>motor_bus.read\<close> can return: a number (\<open>Num v\<close>, with \<open>v\<close> its value as a float),
  a numeric \<^verbatim>\<open>numpy.ndarray\<close> with its elements in order, or any other object, on which
  \<^verbatim>\<open>float\<close> raises \<^verbatim>\<open>TypeError\<close>.
\<close>

datatype pyvalue = Num real | NdArray "real list" | Obj

text \<open>What the program does to the outside world, in order.\<close>

datatype event =
    Connect
  | Disconnect
  | Read string string
  | Write string real string
  | Sleep real

text \<open>
  The robot object and its motor bus. Each method is given the events so far, so that a
  reply may depend on everything that happened before.
\<close>

record robot =
  is_connected :: "event list \<Rightarrow> bool"
  connect :: "event list \<Rightarrow> unit result"
  disconnect :: "event list \<Rightarrow> unit result"
  bus_read :: "event list \<Rightarrow> string \<Rightarrow> string \<Rightarrow> pyvalue result"
  bus_write :: "event list \<Rightarrow> string \<Rightarrow> real \<Rightarrow> string \<Rightarrow> unit result"

text \<open>
  Printed lines: the literal text, with floats and exception messages kept symbolic
  (\<open>Flt v\<close> is the text of the float \<open>v\<close>, \<open>Msg e\<close> is \<^verbatim>\<open>str(e)\<close>).
\<close>

datatype piece = Txt string | Flt real | Msg exn

type_synonym line = "piece list"

record world =
  events :: "event list"
  printed :: "line list"

definition print :: "line \<Rightarrow> world \<Rightarrow> world" where
  "print l w = w\<lparr>printed := printed w @ [l]\<rparr>"

definition emit :: "event \<Rightarrow> world \<Rightarrow> world" where
  "emit ev w = w\<lparr>events := events w @ [ev]\<rparr>"

definition motor_bus_read :: "robot \<Rightarrow> string \<Rightarrow> string \<Rightarrow> world \<Rightarrow> pyvalue result \<times> world" where
  "motor_bus_read rb reg joint w = (bus_read rb (events w) reg joint, emit (Read reg joint) w)"

definition motor_bus_write ::
    "robot \<Rightarrow> string \<Rightarrow> real \<Rightarrow> string \<Rightarrow> world \<Rightarrow> unit result \<times> world" where
  "motor_bus_write rb reg v joint w = (bus_write rb (events w) reg v joint, emit (Write reg v joint) w)"

definition sleep :: "real \<Rightarrow> world \<Rightarrow> world" where
  "sleep t w = emit (Sleep t) w"

subsection \<open>Floats\<close>

text \<open>
  The operations of the interpreter on floats that the program uses: \<^verbatim>\<open>float(s)\<close> on a
  string, where \<open>None\<close> is \<^verbatim>\<open>ValueError\<close>, and the binary operators \<^verbatim>\<open>+\<close> and \<^verbatim>\<open>-\<close>, whose
  result is the rounded sum or difference. The comparison with 0.0 and the constants 0.0,
  0.5 and 300.0 are exact.
\<close>

record float_ops =
  float_of_str :: "string \<Rightarrow> real option"
  float_add :: "real \<Rightarrow> real \<Rightarrow> real"
  float_sub :: "real \<Rightarrow> real \<Rightarrow> real"

subsection \<open>The console state\<close>

definition joint_names :: "string list" where
  "joint_names = [''shoulder_pan'', ''shoulder_lift'', ''elbow_flex'', ''wrist_flex'',
     ''wrist_roll'', ''gripper'']"

record console_state =
  joint_positions :: "string \<rightharpoonup> real"
  selected_joint :: string
  step_size :: real

text \<open>How a statement of the loop body ends: it falls through, breaks, or raises.\<close>

datatype ctl = Next | Break | Raise exn

type_synonym outcome = "ctl \<times> console_state \<times> world"

subsection \<open>Reading one joint\<close>

text \<open>
  The block that appears four times in the source (lines 51-58, 118-125, 144-151 and
  176-183): the value that is stored for what the bus returned. \<^verbatim>\<open>pos.item()\<close> raises
  \<^verbatim>\<open>ValueError\<close> on an array of more than one element.
\<close>

definition position_of :: "pyvalue \<Rightarrow> real result" where
  "position_of pos = (case pos of
       NdArray xs \<Rightarrow>
         if length xs > 0 then (case xs of [x] \<Rightarrow> Returned x | _ \<Rightarrow> Raised ValueError)
         else Returned 0
     | Num v \<Rightarrow> Returned v
     | Obj \<Rightarrow> Raised TypeError)"

definition read_present :: "robot \<Rightarrow> string \<Rightarrow> world \<Rightarrow> real result \<times> world" where
  "read_present rb joint w =
     (case motor_bus_read rb ''Present_Position'' joint w of
        (Raised e, w') \<Rightarrow> (Raised e, w')
      | (Returned pos, w') \<Rightarrow> (position_of pos, w'))"

subsection \<open>The commands\<close>

text \<open>
  The handler \<^verbatim>\<open>except Exception as e: print(f"Error: {str(e)}")\<close> of the two move
  commands: an exception that is not an \<^verbatim>\<open>Exception\<close> passes through it.
\<close>

definition move_failed :: "exn \<Rightarrow> console_state \<Rightarrow> world \<Rightarrow> outcome" where
  "move_failed e st w =
     (if is_Exception e then (Next, st, print [Txt ''Error: '', Msg e] w) else (Raise e, st, w))"

text \<open>
  The commands \<^verbatim>\<open>+\<close> (lines 105-129, \<open>op\<close> is the addition of floats) and \<^verbatim>\<open>-\<close> (lines
  131-155, \<open>op\<close> is their subtraction); the two blocks differ in this operator only.
\<close>

definition move :: "(real \<Rightarrow> real \<Rightarrow> real) \<Rightarrow> robot \<Rightarrow> console_state \<Rightarrow> world \<Rightarrow> outcome" where
  "move op rb st w =
     (case joint_positions st (selected_joint st) of
        None \<Rightarrow> move_failed (KeyError (selected_joint st)) st w
      | Some current_pos \<Rightarrow>
          let target_pos = op current_pos (step_size st);
              w1 = print [Txt ''Moving '', Txt (selected_joint st), Txt '' from '', Flt current_pos,
                          Txt '' to '', Flt target_pos] w
          in case motor_bus_write rb ''Goal_Position'' target_pos (selected_joint st) w1 of
               (Raised e, w2) \<Rightarrow> move_failed e st w2
             | (Returned u, w2) \<Rightarrow>
                 let w3 = sleep (1 / 2) (print [Txt ''Command sent. Waiting...''] w2)
                 in case read_present rb (selected_joint st) w3 of
                      (Raised e, w4) \<Rightarrow> move_failed e st w4
                    | (Returned v, w4) \<Rightarrow>
                        (Next,
                         st\<lparr>joint_positions := (joint_positions st)(selected_joint st \<mapsto> v)\<rparr>,
                         print [Txt ''New position: '', Flt v] w4))"

text \<open>The command \<^verbatim>\<open>j\<close> (lines 90-103).\<close>

definition select_joint :: "string \<Rightarrow> console_state \<Rightarrow> world \<Rightarrow> outcome" where
  "select_joint cmd st w =
     (let parts = py_split cmd in
      if length parts > 1 then
        (case py_int (parts ! 1) of
           None \<Rightarrow> (Next, st, print [Txt ''Invalid joint number format''] w)
         | Some n \<Rightarrow>
             let idx = n - 1 in
             if 0 \<le> idx \<and> idx < int (length joint_names) then
               (Next, st\<lparr>selected_joint := joint_names ! nat idx\<rparr>,
                print [Txt ''Selected joint: '', Txt (joint_names ! nat idx)] w)
             else
               (Next, st,
                print [Txt ''Invalid joint number. Use 1-'', Txt (str_nat (length joint_names))] w))
      else (Next, st, print [Txt ''Usage: j NUMBER''] w))"

text \<open>The command \<^verbatim>\<open>s\<close> (lines 157-170); \<open>fl\<close> is \<^verbatim>\<open>float\<close> on strings.\<close>

definition set_step :: "(string \<Rightarrow> real option) \<Rightarrow> string \<Rightarrow> console_state \<Rightarrow> world \<Rightarrow> outcome" where
  "set_step fl cmd st w =
     (let parts = py_split cmd in
      if length parts > 1 then
        (case fl (parts ! 1) of
           None \<Rightarrow> (Next, st, print [Txt ''Invalid step size format''] w)
         | Some new_step \<Rightarrow>
             if new_step > 0 then
               (Next, st\<lparr>step_size := new_step\<rparr>, print [Txt ''Step size set to '', Flt new_step] w)
             else (Next, st, print [Txt ''Step size must be positive''] w))
      else (Next, st, print [Txt ''Usage: s NUMBER''] w))"

text \<open>
  The loop of the command \<^verbatim>\<open>r\<close> (lines 174-186). Its handler prints and stores nothing.
\<close>

fun read_all :: "robot \<Rightarrow> string list \<Rightarrow> console_state \<Rightarrow> world \<Rightarrow> outcome" where
  "read_all rb [] st w = (Next, st, w)"
| "read_all rb (joint # joints) st w =
     (case read_present rb joint w of
        (Returned v, w1) \<Rightarrow>
          read_all rb joints (st\<lparr>joint_positions := (joint_positions st)(joint \<mapsto> v)\<rparr>)
            (print [Txt joint, Txt '': '', Flt v] w1)
      | (Raised e, w1) \<Rightarrow>
          if is_Exception e then
            read_all rb joints st (print [Txt ''Error reading '', Txt joint, Txt '': '', Msg e] w1)
          else (Raise e, st, w1))"

text \<open>The dispatch on the command (lines 87-189), in the order of the source.\<close>

definition command ::
    "robot \<Rightarrow> float_ops \<Rightarrow> string \<Rightarrow> console_state \<Rightarrow> world \<Rightarrow> outcome" where
  "command rb fl cmd st w =
     (if cmd = ''q'' then (Break, st, w)
      else if startswith cmd ''j'' then select_joint cmd st w
      else if cmd = ''+'' then move (float_add fl) rb st w
      else if cmd = ''-'' then move (float_sub fl) rb st w
      else if startswith cmd ''s'' then set_step (float_of_str fl) cmd st w
      else if cmd = ''r'' then
        read_all rb joint_names st (print [Txt (CHR 0x0A # ''Reading all positions...'')] w)
      else (Next, st, print [Txt ''Unknown command''] w))"

subsection \<open>The command loop\<close>

text \<open>What \<^verbatim>\<open>input\<close> gives: a line, Ctrl-C, or the end of the input.\<close>

datatype keyboard = Line string | Interrupt | EOF

text \<open>
  The three status lines at the top of the loop body (lines 80-82). The second one looks
  the selected joint up in the cache, outside every handler.
\<close>

definition status :: "console_state \<Rightarrow> world \<Rightarrow> unit result \<times> world" where
  "status st w =
     (let w1 = print [Txt (CHR 0x0A # ''Selected joint: ''), Txt (selected_joint st)] w in
      case joint_positions st (selected_joint st) of
        None \<Rightarrow> (Raised (KeyError (selected_joint st)), w1)
      | Some p \<Rightarrow>
          (Returned (),
           print [Txt ''Step size: '', Flt (step_size st)] (print [Txt ''Current position: '', Flt p] w1)))"

text \<open>
  One line of input (line 85 and the dispatch): \<^verbatim>\<open>cmd = input(...).strip().lower()\<close>.
  The prompt that \<^verbatim>\<open>input\<close> writes is not among the printed lines.
\<close>

definition on_line ::
    "robot \<Rightarrow> float_ops \<Rightarrow> string \<Rightarrow> console_state \<Rightarrow> world \<Rightarrow> outcome" where
  "on_line rb fl l st w = command rb fl (lower (strip l)) st w"

text \<open>
  \<^verbatim>\<open>while True\<close> over the keyboard inputs that are there. With no input left the loop is
  blocked in \<^verbatim>\<open>input\<close>, after the status lines: this is the result \<open>Next\<close>.
\<close>

fun loop ::
    "robot \<Rightarrow> float_ops \<Rightarrow> keyboard list \<Rightarrow> console_state \<Rightarrow> world \<Rightarrow> outcome" where
  "loop rb fl [] st w =
     (case status st w of
        (Raised e, w1) \<Rightarrow> (Raise e, st, w1)
      | (Returned u, w1) \<Rightarrow> (Next, st, w1))"
| "loop rb fl (k # ks) st w =
     (case status st w of
        (Raised e, w1) \<Rightarrow> (Raise e, st, w1)
      | (Returned u, w1) \<Rightarrow>
          (case k of
             Interrupt \<Rightarrow> (Raise KeyboardInterrupt, st, w1)
           | EOF \<Rightarrow> (Raise EOFError, st, w1)
           | Line l \<Rightarrow>
               (case on_line rb fl l st w1 of
                  (Next, st', w') \<Rightarrow> loop rb fl ks st' w'
                | (Break, st', w') \<Rightarrow> (Break, st', w')
                | (Raise e, st', w') \<Rightarrow> (Raise e, st', w'))))"

subsection \<open>Start-up and shut-down\<close>

text \<open>
  The first read of all joints (lines 49-62). Here the handler stores 0.0 for the joint.
\<close>

fun read_initial ::
    "robot \<Rightarrow> string list \<Rightarrow> (string \<rightharpoonup> real) \<Rightarrow> world \<Rightarrow> ctl \<times> (string \<rightharpoonup> real) \<times> world" where
  "read_initial rb [] jp w = (Next, jp, w)"
| "read_initial rb (joint # joints) jp w =
     (case read_present rb joint w of
        (Returned v, w1) \<Rightarrow>
          read_initial rb joints (jp(joint \<mapsto> v)) (print [Txt joint, Txt '': '', Flt v] w1)
      | (Raised e, w1) \<Rightarrow>
          if is_Exception e then
            read_initial rb joints (jp(joint \<mapsto> 0))
              (print [Txt ''Error reading '', Txt joint, Txt '': '', Msg e] w1)
          else (Raise e, jp, w1))"

text \<open>The \<^verbatim>\<open>finally\<close> clause (lines 194-199).\<close>

definition finally_disconnect :: "robot \<Rightarrow> world \<Rightarrow> unit result \<times> world" where
  "finally_disconnect rb w =
     (if is_connected rb (events w) then
        let w1 = print [Txt ''Disconnecting robot...''] w
        in case disconnect rb (events w1) of
             Raised e \<Rightarrow> (Raised e, emit Disconnect w1)
           | Returned u \<Rightarrow> (Returned (), print [Txt ''Robot disconnected''] (emit Disconnect w1))
      else (Returned (), w))"

text \<open>
  The \<^verbatim>\<open>try\<close> statement (lines 78-199) around the loop. \<open>Next\<close> says that the loop is still
  waiting for input, \<open>Break\<close> that the statement has ended normally, \<open>Raise e\<close> that \<open>e\<close>
  leaves it.
\<close>

definition console ::
    "robot \<Rightarrow> float_ops \<Rightarrow> keyboard list \<Rightarrow> console_state \<Rightarrow> world \<Rightarrow> outcome" where
  "console rb fl ks st w =
     (case loop rb fl ks st w of
        (Next, st', w') \<Rightarrow> (Next, st', w')
      | (Break, st', w') \<Rightarrow>
          (case finally_disconnect rb w' of
             (Raised e', w'') \<Rightarrow> (Raise e', st', w'')
           | (Returned u, w'') \<Rightarrow> (Break, st', w''))
      | (Raise e, st', w') \<Rightarrow>
          if e = KeyboardInterrupt then
            (case finally_disconnect rb
                    (print [Txt (CHR 0x0A # ''Program interrupted by user'')] w') of
               (Raised e', w'') \<Rightarrow> (Raise e', st', w'')
             | (Returned u, w'') \<Rightarrow> (Break, st', w''))
          else
            (case finally_disconnect rb w' of
               (Raised e', w'') \<Rightarrow> (Raise e', st', w'')
             | (Returned u, w'') \<Rightarrow> (Raise e, st', w'')))"

definition menu :: "world \<Rightarrow> world" where
  "menu w = foldl (\<lambda>w l. print [Txt l] w) w
     [CHR 0x0A # ''Simple Joint Controller'', ''======================'', ''Commands:'',
      ''  j NUMBER - select joint (1-6)'', ''  + - move current joint up/forward'',
      ''  - - move current joint down/backward'', ''  s NUMBER - set step size'',
      ''  r - read all positions'', ''  q - quit'']"

text \<open>
  \<^verbatim>\<open>main\<close> from the connection on (lines 34-199). The start-up is outside the
  \<^verbatim>\<open>try\<close> statement: an exception there leaves \<^verbatim>\<open>main\<close> at once. The construction of
  the robot object (lines 19-32) and the look-up of its motor bus (line 41) are taken as
  given.
\<close>

definition initial_state :: "(string \<rightharpoonup> real) \<Rightarrow> console_state" where
  "initial_state jp = \<lparr>joint_positions = jp, selected_joint = joint_names ! 0, step_size = 300\<rparr>"

definition main :: "robot \<Rightarrow> float_ops \<Rightarrow> keyboard list \<Rightarrow> world \<Rightarrow> ctl \<times> world" where
  "main rb fl ks w0 =
     (let w1 = print [Txt ''Connecting to robot...''] (print [Txt ''Creating robot object...''] w0)
      in case (if \<not> is_connected rb (events w1) then (connect rb (events w1), emit Connect w1)
               else (Returned (), w1)) of
           (Raised e, w2) \<Rightarrow> (Raise e, w2)
         | (Returned u, w2) \<Rightarrow>
             (case read_initial rb joint_names Map.empty
                     (print [Txt (CHR 0x0A # ''Reading initial positions...'')]
                        (print [Txt ''Robot connected successfully!''] w2)) of
                (Raise e, jp, w3) \<Rightarrow> (Raise e, w3)
              | (c, jp, w3) \<Rightarrow>
                  (case console rb fl ks (initial_state jp) (menu w3) of
                     (c', st', w') \<Rightarrow> (c', w'))))"

subsection \<open>Observations and sample data\<close>

text \<open>The events that a command has added to the world.\<close>

definition new_events :: "world \<Rightarrow> world \<Rightarrow> event list" where
  "new_events w w' = drop (length (events w)) (events w')"

fun is_write :: "event \<Rightarrow> bool" where
  "is_write (Write reg v joint) = True"
| "is_write ev = False"

text \<open>
  The world \<open>w'\<close> continues the world \<open>w\<close> without a disconnect: its events are those of
  \<open>w\<close> and then others, none of which is \<open>Disconnect\<close>.
\<close>

definition continues :: "world \<Rightarrow> world \<Rightarrow> bool" where
  "continues w w' =
     (take (length (events w)) (events w') = events w \<and> Disconnect \<notin> set (new_events w w'))"

text \<open>
  The outcome of the \<open>k\<close>th read of a pass over the joints \<open>js\<close> that starts in the world
  \<open>w\<close>, when the reads before it have been made: the float to store, or the exception of
  the bus or of the conversion.
\<close>

definition reply :: "robot \<Rightarrow> world \<Rightarrow> string list \<Rightarrow> nat \<Rightarrow> real result" where
  "reply rb w js k =
     (case bus_read rb (events w @ map (Read ''Present_Position'') (take k js))
             ''Present_Position'' (js ! k) of
        Raised e \<Rightarrow> Raised e
      | Returned pos \<Rightarrow> position_of pos)"

text \<open>The invariant of the console state.\<close>

definition valid :: "console_state \<Rightarrow> bool" where
  "valid st = (selected_joint st \<in> set joint_names \<and> 0 < step_size st)"

text \<open>
  The commands of the specification's table, read generously: the trimmed, lower-cased
  line is \<^verbatim>\<open>+\<close>, \<^verbatim>\<open>-\<close>, \<^verbatim>\<open>r\<close> or \<^verbatim>\<open>q\<close>, or its first word is \<^verbatim>\<open>j\<close> or \<^verbatim>\<open>s\<close>.
\<close>

definition defined_command :: "string \<Rightarrow> bool" where
  "defined_command cmd =
     (cmd = ''+'' \<or> cmd = ''-'' \<or> cmd = ''r'' \<or> cmd = ''q'' \<or>
      (case py_split cmd of [] \<Rightarrow> False | a # ts \<Rightarrow> a = ''j'' \<or> a = ''s''))"

text \<open>
  The scenario of the specification: a bus on which every write succeeds and every read
  returns 395.0, and a cache that holds 100.0 for the first joint and 0.0 for the others.
\<close>

definition scenario_robot :: robot where
  "scenario_robot = \<lparr>is_connected = (\<lambda>h. True), connect = (\<lambda>h. Returned ()),
     disconnect = (\<lambda>h. Returned ()),
     bus_read = (\<lambda>h reg joint. Returned (Num 395)),
     bus_write = (\<lambda>h reg v joint. Returned ())\<rparr>"

definition scenario_state :: console_state where
  "scenario_state = \<lparr>joint_positions = map_of (zip joint_names [100, 0, 0, 0, 0, 0]),
     selected_joint = ''shoulder_pan'', step_size = 300\<rparr>"

text \<open>A bus on which the read of the first joint times out and every other read returns 7.0.\<close>

definition flaky_robot :: robot where
  "flaky_robot = \<lparr>is_connected = (\<lambda>h. True), connect = (\<lambda>h. Returned ()),
     disconnect = (\<lambda>h. Returned ()),
     bus_read = (\<lambda>h reg joint.
       if joint = ''shoulder_pan'' then Raised (Exception ''timeout'') else Returned (Num 7)),
     bus_write = (\<lambda>h reg v joint. Returned ())\<rparr>"

definition silent :: world where
  "silent = \<lparr>events = [], printed = []\<rparr>"

text \<open>
  A stand-in for the interpreter's floats, for the examples only. It reads the integer
  numerals, where it agrees with \<^verbatim>\<open>float\<close>, and it adds and subtracts exactly, which is
  what the interpreter does when the exact result is a float, as it is for 100.0 + 300.0
  and 100.0 - 300.0. The examples apply it to \<^verbatim>\<open>-5\<close>, \<^verbatim>\<open>50\<close>, \<^verbatim>\<open>abc\<close> and these two sums
  only. The theorems hold for every \<open>fl\<close>; only the examples use this one.
\<close>

definition sample_float :: float_ops where
  "sample_float = \<lparr>float_of_str = (\<lambda>t. map_option real_of_int (py_int t)),
     float_add = (+), float_sub = (-)\<rparr>"

section \<open>Properties\<close>

subsection \<open>Basic facts\<close>

lemma events_print [simp]: "events (print l w) = events w"
  by (simp add: print_def)

lemma printed_print [simp]: "printed (print l w) = printed w @ [l]"
  by (simp add: print_def)

lemma events_emit [simp]: "events (emit ev w) = events w @ [ev]"
  by (simp add: emit_def)

lemma printed_emit [simp]: "printed (emit ev w) = printed w"
  by (simp add: emit_def)

lemma events_sleep [simp]: "events (sleep t w) = events w @ [Sleep t]"
  by (simp add: sleep_def)

lemma printed_sleep [simp]: "printed (sleep t w) = printed w"
  by (simp add: sleep_def)

lemma startswith_Cons [simp]: "startswith s [c] = (\<exists>cs. s = c # cs)"
  by (cases s) (auto simp: startswith_def)

lemma py_int_3: "py_int ''3'' = Some 3"
  by (simp add: py_int_def strip_def is_space_def py_digits_def is_digit_def digit_val_def)

declare str_nat.simps [simp del]

lemma command_plus: "command rb fl ''+'' st w = move (float_add fl) rb st w"
  by (simp add: command_def)

lemma command_minus: "command rb fl ''-'' st w = move (float_sub fl) rb st w"
  by (simp add: command_def)

lemma move_failed_world [simp]:
  "snd (snd (move_failed e st w)) = (if is_Exception e then print [Txt ''Error: '', Msg e] w else w)"
  by (simp add: move_failed_def)

lemma move_failed_state [simp]: "fst (snd (move_failed e st w)) = st"
  by (simp add: move_failed_def)

subsection \<open>Unknown commands\<close>

text \<open>
  Claim C8, as the code has it. A line whose trimmed, lower-cased form is none of \<^verbatim>\<open>q\<close>,
  \<^verbatim>\<open>+\<close>, \<^verbatim>\<open>-\<close>, \<^verbatim>\<open>r\<close> and begins with neither \<^verbatim>\<open>j\<close> nor \<^verbatim>\<open>s\<close> prints
  \<^verbatim>\<open>Unknown command\<close> and leaves the console state as it is. Every line whose trimmed,
  lower-cased form begins with \<^verbatim>\<open>j\<close> is given to the command that selects a joint, and
  every one that begins with \<^verbatim>\<open>s\<close> to the command that sets the step size, whatever
  follows the first letter.
\<close>

theorem unknown_command:
  assumes "cmd = lower (strip l)"
  shows
    "(cmd \<noteq> ''q'' \<and> \<not> startswith cmd ''j'' \<and> cmd \<noteq> ''+'' \<and> cmd \<noteq> ''-'' \<and>
      \<not> startswith cmd ''s'' \<and> cmd \<noteq> ''r'' \<longrightarrow>
        on_line rb fl l st w = (Next, st, print [Txt ''Unknown command''] w)) \<and>
     (startswith cmd ''j'' \<longrightarrow> on_line rb fl l st w = select_joint cmd st w) \<and>
     (startswith cmd ''s'' \<longrightarrow>
        on_line rb fl l st w = set_step (float_of_str fl) cmd st w)"
  using assms by (auto simp: on_line_def command_def)

lemma examples_unknown:
  "lower (strip ''  Hello '') = ''hello''"
  "lower (strip ''jump 3'') = ''jump 3''" "py_split ''jump 3'' = [''jump'', ''3'']"
  "lower (strip ''Speed 50'') = ''speed 50''" "py_split ''speed 50'' = [''speed'', ''50'']"
  by code_simp+

theorem unknown_command_witness:
  "on_line scenario_robot sample_float ''  Hello '' scenario_state silent
     = (Next, scenario_state, print [Txt ''Unknown command''] silent) \<and>
   on_line scenario_robot sample_float ''jump 3'' scenario_state silent
     = (Next, scenario_state\<lparr>selected_joint := ''elbow_flex''\<rparr>,
        print [Txt ''Selected joint: '', Txt ''elbow_flex''] silent) \<and>
   on_line scenario_robot sample_float ''Speed 50'' scenario_state silent
     = (Next, scenario_state\<lparr>step_size := 50\<rparr>,
        print [Txt ''Step size set to '', Flt 50] silent)"
proof -
  have j: "select_joint ''jump 3'' scenario_state silent =
      (Next, scenario_state\<lparr>selected_joint := ''elbow_flex''\<rparr>,
       print [Txt ''Selected joint: '', Txt ''elbow_flex''] silent)"
    by (simp add: select_joint_def examples_unknown py_int_3 joint_names_def)
  have f: "float_of_str sample_float ''50'' = Some 50"
    unfolding sample_float_def by code_simp
  have s: "set_step (float_of_str sample_float) ''speed 50'' scenario_state silent =
      (Next, scenario_state\<lparr>step_size := 50\<rparr>,
       print [Txt ''Step size set to '', Flt 50] silent)"
    by (simp add: set_step_def examples_unknown f)
  from unknown_command [where cmd = "''hello''" and l = "''  Hello ''" and rb = scenario_robot
      and fl = sample_float and st = scenario_state and w = silent]
    unknown_command [where cmd = "''jump 3''" and l = "''jump 3''" and rb = scenario_robot
      and fl = sample_float and st = scenario_state and w = silent]
    unknown_command [where cmd = "''speed 50''" and l = "''Speed 50''" and rb = scenario_robot
      and fl = sample_float and st = scenario_state and w = silent]
  show ?thesis
    by (simp add: examples_unknown j s)
qed

text \<open>
  Claim C8 as it is written fails: the line \<^verbatim>\<open>jump 3\<close> is none of the defined commands,
  yet it selects the third joint and prints no \<^verbatim>\<open>Unknown command\<close>.
\<close>

lemma split_jump: "py_split ''jump 3'' = [''jump'', ''3'']"
  by (simp add: py_split_def is_space_def)

theorem unknown_command_counterexample:
  "\<not> defined_command (lower (strip ''jump 3'')) \<and>
   selected_joint scenario_state = ''shoulder_pan'' \<and>
   (case on_line scenario_robot sample_float ''jump 3'' scenario_state silent of
      (c, st, w) \<Rightarrow> selected_joint st = ''elbow_flex'' \<and>
                   printed w = [[Txt ''Selected joint: '', Txt ''elbow_flex'']])"
proof -
  have n: "lower (strip ''jump 3'') = ''jump 3''"
    by (simp add: strip_def lower_def is_space_def lower_char_def)
  have "\<not> defined_command ''jump 3''"
    by (simp add: defined_command_def split_jump)
  moreover have "selected_joint scenario_state = ''shoulder_pan''"
    by (simp add: scenario_state_def)
  moreover have "select_joint ''jump 3'' scenario_state silent =
      (Next, scenario_state\<lparr>selected_joint := ''elbow_flex''\<rparr>,
       print [Txt ''Selected joint: '', Txt ''elbow_flex''] silent)"
    by (simp add: select_joint_def split_jump py_int_3 joint_names_def)
  ultimately show ?thesis
    by (simp add: n on_line_def command_def silent_def)
qed

subsection \<open>The move commands\<close>

text \<open>
  What a move does to the outside world: the write of the target, and after a write that
  returned the pause and the read of the same joint.
\<close>

lemma move_new_events:
  assumes "joint_positions st (selected_joint st) = Some P"
  shows "new_events w (snd (snd (move op rb st w))) =
     Write ''Goal_Position'' (op P (step_size st)) (selected_joint st) #
       (case bus_write rb (events w) ''Goal_Position'' (op P (step_size st)) (selected_joint st) of
          Raised e \<Rightarrow> []
        | Returned u \<Rightarrow> [Sleep (1 / 2), Read ''Present_Position'' (selected_joint st)])"
  using assms
  by (simp add: move_def Let_def new_events_def motor_bus_write_def read_present_def
      motor_bus_read_def split: result.splits)

lemma move_frame:
  "case move op rb st w of (c, st', w') \<Rightarrow>
     step_size st' = step_size st \<and> selected_joint st' = selected_joint st \<and>
     (\<forall>j. j \<noteq> selected_joint st \<longrightarrow> joint_positions st' j = joint_positions st j)"
  by (auto simp: move_def move_failed_def Let_def
      split: option.splits result.splits prod.splits)

lemma scenario_plus:
  "command scenario_robot sample_float ''+'' scenario_state silent =
     (Next,
      scenario_state\<lparr>joint_positions :=
        (joint_positions scenario_state)(''shoulder_pan'' \<mapsto> 395)\<rparr>,
      \<lparr>events = [Write ''Goal_Position'' 400 ''shoulder_pan'', Sleep (1 / 2),
                 Read ''Present_Position'' ''shoulder_pan''],
       printed = [[Txt ''Moving '', Txt ''shoulder_pan'', Txt '' from '', Flt 100, Txt '' to '',
                   Flt 400],
                  [Txt ''Command sent. Waiting...''], [Txt ''New position: '', Flt 395]]\<rparr>)"
  by (simp add: command_def move_def scenario_state_def scenario_robot_def silent_def
      sample_float_def joint_names_def motor_bus_write_def read_present_def motor_bus_read_def
      position_of_def print_def emit_def sleep_def)

lemma scenario_cached:
  "joint_positions scenario_state (selected_joint scenario_state) = Some 100"
  by (simp add: scenario_state_def joint_names_def)

text \<open>
  Claim C1. With \<open>P\<close> the cached position of the selected joint and \<open>S\<close> the step size, the
  command \<^verbatim>\<open>+\<close> issues exactly one write: of the float sum \<^verbatim>\<open>P + S\<close>, as the interpreter
  computes it, to \<^verbatim>\<open>Goal_Position\<close> of the selected joint; and the command \<^verbatim>\<open>-\<close> exactly one
  write, of the float difference \<^verbatim>\<open>P - S\<close>. The scenario of the claim (100.0 cached, step
  300.0, read-back 395.0) is the witness: there the float sum is 400.0.
\<close>

theorem move_writes_target:
  assumes "joint_positions st (selected_joint st) = Some P"
  shows "filter is_write (new_events w (snd (snd (command rb fl ''+'' st w))))
           = [Write ''Goal_Position'' (float_add fl P (step_size st)) (selected_joint st)]
       \<and> filter is_write (new_events w (snd (snd (command rb fl ''-'' st w))))
           = [Write ''Goal_Position'' (float_sub fl P (step_size st)) (selected_joint st)]"
  by (simp add: command_plus command_minus move_new_events [OF assms] split: result.splits)

theorem move_writes_target_witness:
  "joint_positions scenario_state (selected_joint scenario_state) = Some 100 \<and>
   step_size scenario_state = 300 \<and>
   float_add sample_float 100 300 = 400 \<and>
   filter is_write (new_events silent
       (snd (snd (command scenario_robot sample_float ''+'' scenario_state silent))))
     = [Write ''Goal_Position'' 400 ''shoulder_pan''] \<and>
   joint_positions (fst (snd (command scenario_robot sample_float ''+'' scenario_state silent)))
       ''shoulder_pan'' = Some 395"
proof -
  have s: "step_size scenario_state = 300" "selected_joint scenario_state = ''shoulder_pan''"
    by (simp_all add: scenario_state_def)
  from move_writes_target [OF scenario_cached, where w = silent and rb = scenario_robot
      and fl = sample_float]
  show ?thesis
    using scenario_cached s by (simp add: scenario_plus) (simp add: sample_float_def)
qed

text \<open>
  Claim C3. When the write of a move command returns and the read that follows returns
  the number \<open>V\<close>, or an array whose only element is \<open>V\<close>, the cache holds \<open>V\<close> for the
  selected joint afterwards.
\<close>

theorem move_read_back:
  assumes "joint_positions st (selected_joint st) = Some P"
    and "(cmd = ''+'' \<and> T = float_add fl P (step_size st)) \<or>
         (cmd = ''-'' \<and> T = float_sub fl P (step_size st))"
    and "bus_write rb (events w) ''Goal_Position'' T (selected_joint st) = Returned ()"
    and "bus_read rb (events w @ [Write ''Goal_Position'' T (selected_joint st), Sleep (1 / 2)])
           ''Present_Position'' (selected_joint st) = Returned pos"
    and "pos = Num V \<or> pos = NdArray [V]"
  shows "joint_positions (fst (snd (command rb fl cmd st w))) (selected_joint st) = Some V"
  using assms
  by (auto simp: command_plus command_minus move_def Let_def position_of_def
      motor_bus_write_def read_present_def motor_bus_read_def)

theorem move_read_back_witness:
  "joint_positions scenario_state (selected_joint scenario_state) = Some 100 \<and>
   bus_write scenario_robot (events silent) ''Goal_Position''
       (float_sub sample_float 100 (step_size scenario_state))
       (selected_joint scenario_state) = Returned () \<and>
   bus_read scenario_robot
       (events silent @
          [Write ''Goal_Position'' (float_sub sample_float 100 (step_size scenario_state))
             (selected_joint scenario_state), Sleep (1 / 2)])
       ''Present_Position'' (selected_joint scenario_state) = Returned (Num 395) \<and>
   joint_positions (fst (snd (command scenario_robot sample_float ''-'' scenario_state silent)))
       (selected_joint scenario_state) = Some 395"
proof -
  have wr: "bus_write scenario_robot (events silent) ''Goal_Position''
       (float_sub sample_float 100 (step_size scenario_state))
       (selected_joint scenario_state) = Returned ()"
    by (simp add: scenario_robot_def)
  have rd: "bus_read scenario_robot
       (events silent @
          [Write ''Goal_Position'' (float_sub sample_float 100 (step_size scenario_state))
             (selected_joint scenario_state), Sleep (1 / 2)])
       ''Present_Position'' (selected_joint scenario_state) = Returned (Num 395)"
    by (simp add: scenario_robot_def)
  from move_read_back [OF scenario_cached _ wr rd, where cmd = "''-''" and V = 395
      and fl = sample_float]
  show ?thesis using scenario_cached wr rd by simp
qed

text \<open>
  Claim C10. Whatever happens during a move command (the write raises, the read raises,
  the value read cannot be converted, or all goes well), the step size, the selection and
  the cache entries of the joints that are not selected are as before.
\<close>

theorem move_changes_selected_entry_only:
  assumes "cmd = ''+'' \<or> cmd = ''-''"
  shows "case command rb fl cmd st w of (c, st', w') \<Rightarrow>
     step_size st' = step_size st \<and> selected_joint st' = selected_joint st \<and>
     (\<forall>j. j \<noteq> selected_joint st \<longrightarrow> joint_positions st' j = joint_positions st j)"
  using assms move_frame [where op = "float_add fl" and rb = rb and st = st and w = w]
    move_frame [where op = "float_sub fl" and rb = rb and st = st and w = w]
  by (auto simp: command_plus command_minus)

theorem move_changes_selected_entry_only_witness:
  "case command scenario_robot sample_float ''+'' scenario_state silent of (c, st', w') \<Rightarrow>
     step_size st' = 300 \<and> selected_joint st' = ''shoulder_pan'' \<and>
     joint_positions st' ''shoulder_pan'' = Some 395 \<and>
     joint_positions st' ''gripper'' = Some 0 \<and>
     joint_positions st' ''elbow_flex'' = joint_positions scenario_state ''elbow_flex''"
  using move_changes_selected_entry_only [where cmd = "''+''" and rb = scenario_robot
      and fl = sample_float and st = scenario_state and w = silent]
  by (simp add: scenario_plus) (simp add: scenario_state_def joint_names_def)

subsection \<open>Numerals, words and lines\<close>

lemma is_digit_digit_char: "d < 10 \<Longrightarrow> is_digit (digit_char d)"
  by (simp add: is_digit_def digit_char_def)

lemma digit_val_digit_char: "d < 10 \<Longrightarrow> digit_val (digit_char d) = d"
  by (simp add: digit_val_def digit_char_def)

lemma str_nat_digits: "c \<in> set (str_nat n) \<Longrightarrow> is_digit c"
proof (induction n rule: str_nat.induct)
  case (1 n)
  show ?case
  proof (cases "n < 10")
    case True
    with "1.prems" show ?thesis
      by (simp add: str_nat.simps [of n] is_digit_digit_char)
  next
    case False
    with "1.prems" "1.IH" show ?thesis
      by (auto simp: str_nat.simps [of n] is_digit_digit_char)
  qed
qed

lemma str_nat_not_Nil: "str_nat n \<noteq> []"
  by (simp add: str_nat.simps [of n])

lemma last_str_nat: "last (str_nat n) = digit_char (n mod 10)"
  by (simp add: str_nat.simps [of n])

lemma digits_from_digits:
  "\<forall>c\<in>set cs. is_digit c \<Longrightarrow>
     digits_from acc cs = Some (foldl (\<lambda>a c. a * 10 + digit_val c) acc cs)"
  by (induction cs arbitrary: acc) simp_all

lemma foldl_str_nat: "foldl (\<lambda>a c. a * 10 + digit_val c) 0 (str_nat n) = n"
proof (induction n rule: str_nat.induct)
  case (1 n)
  show ?case
  proof (cases "n < 10")
    case True
    then show ?thesis
      by (simp add: str_nat.simps [of n] digit_val_digit_char)
  next
    case False
    with "1.IH" show ?thesis
      by (simp add: str_nat.simps [of n] digit_val_digit_char)
  qed
qed

lemma py_digits_str_nat: "py_digits (str_nat n) = Some n"
proof (cases "str_nat n")
  case Nil
  then show ?thesis by (simp add: str_nat_not_Nil)
next
  case (Cons c cs)
  have d: "\<forall>x\<in>set (c # cs). is_digit x"
    using str_nat_digits [of _ n] Cons by auto
  have "foldl (\<lambda>a c. a * 10 + digit_val c) 0 (c # cs) = n"
    using foldl_str_nat [of n] Cons by simp
  with d show ?thesis
    by (simp add: py_digits_def Cons digits_from_digits)
qed

lemma digit_not_space: "is_digit c \<Longrightarrow> \<not> is_space c"
  by (auto simp: is_digit_def is_space_def Let_def)

lemma strip_id: "s \<noteq> [] \<Longrightarrow> \<not> is_space (hd s) \<Longrightarrow> \<not> is_space (last s) \<Longrightarrow> strip s = s"
proof -
  assume a: "s \<noteq> []" "\<not> is_space (hd s)" "\<not> is_space (last s)"
  then have "dropWhile is_space s = s"
    by (cases s) simp_all
  moreover from a have "dropWhile is_space (rev s) = rev s"
    by (cases "rev s") (simp_all add: last_rev [symmetric] hd_rev)
  ultimately show ?thesis
    by (simp add: strip_def)
qed

lemma minus_not_space: "\<not> is_space CHR ''-''"
  by (simp add: is_space_def)

lemma str_int_token: "str_int i \<noteq> []" "c \<in> set (str_int i) \<Longrightarrow> \<not> is_space c"
  by (auto simp: str_int_def str_nat_not_Nil minus_not_space
      dest: str_nat_digits digit_not_space split: if_splits)

lemma py_int_str_int: "py_int (str_int i) = Some i"
proof -
  have l: "last (str_int i) \<in> set (str_int i)"
    by (simp add: str_int_token)
  have h: "hd (str_int i) \<in> set (str_int i)"
    by (simp add: str_int_token)
  have s: "strip (str_int i) = str_int i"
    using str_int_token(2) [OF l] str_int_token(2) [OF h]
    by (simp add: strip_id str_int_token)
  show ?thesis
  proof (cases "i < 0")
    case True
    then show ?thesis
      using s by (simp add: py_int_def) (simp add: str_int_def py_digits_str_nat)
  next
    case False
    obtain c cs where cs: "str_nat (nat i) = c # cs"
      using str_nat_not_Nil [of "nat i"] by (cases "str_nat (nat i)") auto
    then have "is_digit c"
      using str_nat_digits [of c "nat i"] by simp
    then have "c \<noteq> CHR ''-''" "c \<noteq> CHR ''+''"
      by (auto simp: is_digit_def)
    with False s cs py_digits_str_nat [of "nat i"] show ?thesis
      by (simp add: py_int_def str_int_def)
  qed
qed

lemma split_from_token:
  "\<forall>c\<in>set t. \<not> is_space c \<Longrightarrow> split_from w (t @ rest) = split_from (w @ t) rest"
  by (induction t arbitrary: w) simp_all

lemma py_split_two:
  assumes "\<not> is_space a" and "t \<noteq> []" and "\<forall>c\<in>set t. \<not> is_space c"
  shows "py_split (a # CHR '' '' # t) = [[a], t]"
proof -
  have "split_from [] (t @ []) = split_from ([] @ t) []"
    using assms(3) by (rule split_from_token)
  then have "split_from [] t = [t]"
    using assms(2) by simp
  with assms(1) show ?thesis
    by (simp add: py_split_def is_space_def)
qed

lemma lower_char_digit: "is_digit c \<Longrightarrow> lower_char c = c"
  by (auto simp: is_digit_def lower_char_def Let_def)

lemma lower_str_int: "lower (str_int i) = str_int i"
proof -
  have "lower_char CHR ''-'' = CHR ''-''"
    by (simp add: lower_char_def)
  moreover have "c = CHR ''-'' \<or> is_digit c" if "c \<in> set (str_int i)" for c
    using that by (auto simp: str_int_def dest: str_nat_digits split: if_splits)
  ultimately have "lower_char c = c" if "c \<in> set (str_int i)" for c
    using that lower_char_digit by blast
  then show ?thesis
    by (simp add: lower_def map_idI)
qed

lemma lower_char_not_space: "\<not> is_space c \<Longrightarrow> \<not> is_space (lower_char c)"
  by (auto simp: is_space_def lower_char_def Let_def)

lemma normal_letter_token:
  assumes "\<not> is_space a" and "t \<noteq> []" and "\<forall>c\<in>set t. \<not> is_space c"
  shows "lower (strip (a # CHR '' '' # t)) = lower_char a # CHR '' '' # lower t"
proof -
  have "last t \<in> set t"
    using assms(2) by simp
  with assms have "strip (a # CHR '' '' # t) = a # CHR '' '' # t"
    by (simp add: strip_id)
  then show ?thesis
    by (simp add: lower_def lower_char_def)
qed

lemma on_line_j:
  assumes "t \<noteq> []" and "\<forall>c\<in>set t. \<not> is_space c"
  shows "on_line rb fl (''j '' @ t) st w = select_joint (''j '' @ lower t) st w"
proof -
  have "\<not> is_space CHR ''j''"
    by (simp add: is_space_def)
  from normal_letter_token [OF this assms] show ?thesis
    by (simp add: on_line_def command_def lower_char_def)
qed

lemma on_line_s:
  assumes "t \<noteq> []" and "\<forall>c\<in>set t. \<not> is_space c"
  shows "on_line rb fl (''s '' @ t) st w = set_step (float_of_str fl) (''s '' @ lower t) st w"
proof -
  have "\<not> is_space CHR ''s''"
    by (simp add: is_space_def)
  from normal_letter_token [OF this assms] show ?thesis
    by (simp add: on_line_def command_def lower_char_def)
qed

lemma py_split_lower:
  assumes "\<not> is_space a" and "t \<noteq> []" and "\<forall>c\<in>set t. \<not> is_space c"
  shows "py_split (a # CHR '' '' # lower t) = [[a], lower t]"
  using assms by (intro py_split_two) (auto simp: lower_def lower_char_not_space)

subsection \<open>Selecting a joint, setting the step\<close>

lemma length_joint_names [simp]: "length joint_names = 6"
  by (simp add: joint_names_def)

lemma str_nat_6: "str_nat 6 = ''6''"
  by code_simp

lemma select_joint_parts:
  assumes "py_split cmd = a # t # ts"
  shows "select_joint cmd st w =
     (case py_int t of
        None \<Rightarrow> (Next, st, print [Txt ''Invalid joint number format''] w)
      | Some n \<Rightarrow>
          if 1 \<le> n \<and> n \<le> 6 then
            (Next, st\<lparr>selected_joint := joint_names ! nat (n - 1)\<rparr>,
             print [Txt ''Selected joint: '', Txt (joint_names ! nat (n - 1))] w)
          else (Next, st, print [Txt ''Invalid joint number. Use 1-'', Txt ''6''] w))"
  using assms by (simp add: select_joint_def Let_def str_nat_6 split: option.splits)

lemma set_step_parts:
  assumes "py_split cmd = a # t # ts"
  shows "set_step fl cmd st w =
     (case fl t of
        None \<Rightarrow> (Next, st, print [Txt ''Invalid step size format''] w)
      | Some x \<Rightarrow>
          if 0 < x then (Next, st\<lparr>step_size := x\<rparr>, print [Txt ''Step size set to '', Flt x] w)
          else (Next, st, print [Txt ''Step size must be positive''] w))"
  using assms by (simp add: set_step_def Let_def split: option.splits)

text \<open>
  Claim C5. For an integer \<open>N\<close> from 1 to 6 the line \<^verbatim>\<open>j N\<close> selects the \<open>N\<close>th joint of the
  fixed order; for every other integer \<open>N\<close> it prints the range message and changes
  nothing. A line that begins with \<^verbatim>\<open>j\<close> and has no second word prints the usage line, one
  whose second word is no integer prints the format message; both change nothing.
\<close>

theorem select_joint_command:
  "(1 \<le> N \<and> N \<le> 6 \<longrightarrow>
      on_line rb fl (''j '' @ str_int N) st w =
        (Next, st\<lparr>selected_joint := joint_names ! nat (N - 1)\<rparr>,
         print [Txt ''Selected joint: '', Txt (joint_names ! nat (N - 1))] w)) \<and>
   (N < 1 \<or> 6 < N \<longrightarrow>
      on_line rb fl (''j '' @ str_int N) st w =
        (Next, st, print [Txt ''Invalid joint number. Use 1-'', Txt ''6''] w)) \<and>
   (startswith (lower (strip l)) ''j'' \<and> length (py_split (lower (strip l))) \<le> 1 \<longrightarrow>
      on_line rb fl l st w = (Next, st, print [Txt ''Usage: j NUMBER''] w)) \<and>
   (startswith (lower (strip l)) ''j'' \<and> 1 < length (py_split (lower (strip l))) \<and>
    py_int (py_split (lower (strip l)) ! 1) = None \<longrightarrow>
      on_line rb fl l st w = (Next, st, print [Txt ''Invalid joint number format''] w))"
proof -
  have tok: "str_int N \<noteq> []" "\<forall>c\<in>set (str_int N). \<not> is_space c"
    by (simp_all add: str_int_token)
  have "py_split (CHR ''j'' # CHR '' '' # lower (str_int N)) = [''j'', lower (str_int N)]"
    using tok by (intro py_split_lower) (simp_all add: is_space_def)
  then have sp: "py_split (CHR ''j'' # CHR '' '' # str_int N) = ''j'' # str_int N # []"
    by (simp add: lower_str_int)
  have "on_line rb fl (''j '' @ str_int N) st w = select_joint (''j '' @ str_int N) st w"
    using on_line_j [OF tok] by (simp add: lower_str_int)
  then have num: "on_line rb fl (''j '' @ str_int N) st w =
     (if 1 \<le> N \<and> N \<le> 6 then
        (Next, st\<lparr>selected_joint := joint_names ! nat (N - 1)\<rparr>,
         print [Txt ''Selected joint: '', Txt (joint_names ! nat (N - 1))] w)
      else (Next, st, print [Txt ''Invalid joint number. Use 1-'', Txt ''6''] w))"
    by (simp add: select_joint_parts [OF sp] py_int_str_int)
  have j: "on_line rb fl l st w = select_joint (lower (strip l)) st w"
    if "startswith (lower (strip l)) ''j''"
    using that by (auto simp: on_line_def command_def)
  show ?thesis
    using num j by (auto simp: select_joint_def Let_def)
qed

lemma examples_j:
  "str_int 3 = ''3''" "str_int 9 = ''9''"
  "lower (strip ''j'') = ''j''" "py_split ''j'' = [''j'']"
  "lower (strip ''j x'') = ''j x''" "py_split ''j x'' = [''j'', ''x'']" "py_int ''x'' = None"
  by code_simp+

theorem select_joint_command_witness:
  "on_line scenario_robot sample_float ''j 3'' scenario_state silent =
     (Next, scenario_state\<lparr>selected_joint := ''elbow_flex''\<rparr>,
      print [Txt ''Selected joint: '', Txt ''elbow_flex''] silent) \<and>
   on_line scenario_robot sample_float ''j 9'' scenario_state silent =
     (Next, scenario_state, print [Txt ''Invalid joint number. Use 1-'', Txt ''6''] silent) \<and>
   on_line scenario_robot sample_float ''j'' scenario_state silent =
     (Next, scenario_state, print [Txt ''Usage: j NUMBER''] silent) \<and>
   on_line scenario_robot sample_float ''j x'' scenario_state silent =
     (Next, scenario_state, print [Txt ''Invalid joint number format''] silent)"
  using select_joint_command [where N = 3 and l = "''j''" and rb = scenario_robot
      and fl = sample_float and st = scenario_state and w = silent]
    select_joint_command [where N = 9 and l = "''j x''" and rb = scenario_robot
      and fl = sample_float and st = scenario_state and w = silent]
  by (simp add: examples_j joint_names_def)

text \<open>
  Claim C6. Let \<open>t\<close> be the argument of the line \<^verbatim>\<open>s t\<close> and \<open>x\<close> the float that its
  lower-cased form denotes. If \<open>x\<close> is positive the step size becomes \<open>x\<close>; if \<open>x \<le> 0\<close> the
  state is unchanged and \<^verbatim>\<open>Step size must be positive\<close> is printed; if the argument
  denotes no float the state is unchanged and the format message is printed. The line
  \<^verbatim>\<open>s -5\<close> is in the witness.
\<close>

theorem set_step_command:
  assumes "t \<noteq> []" and "\<forall>c\<in>set t. \<not> is_space c"
  shows
    "(float_of_str fl (lower t) = Some x \<and> 0 < x \<longrightarrow>
        on_line rb fl (''s '' @ t) st w =
          (Next, st\<lparr>step_size := x\<rparr>, print [Txt ''Step size set to '', Flt x] w)) \<and>
     (float_of_str fl (lower t) = Some x \<and> x \<le> 0 \<longrightarrow>
        on_line rb fl (''s '' @ t) st w =
          (Next, st, print [Txt ''Step size must be positive''] w)) \<and>
     (float_of_str fl (lower t) = None \<longrightarrow>
        on_line rb fl (''s '' @ t) st w =
          (Next, st, print [Txt ''Invalid step size format''] w))"
proof -
  have sp: "py_split (CHR ''s'' # CHR '' '' # lower t) = ''s'' # lower t # []"
    using assms by (intro py_split_lower) (simp_all add: is_space_def)
  have "on_line rb fl (''s '' @ t) st w =
      set_step (float_of_str fl) (CHR ''s'' # CHR '' '' # lower t) st w"
    using on_line_s [OF assms] by simp
  then show ?thesis
    by (simp add: set_step_parts [OF sp])
qed

lemma examples_s:
  "lower ''-5'' = ''-5''" "float_of_str sample_float ''-5'' = Some (- 5)"
  "lower ''50'' = ''50''" "float_of_str sample_float ''50'' = Some 50"
  "lower ''abc'' = ''abc''" "float_of_str sample_float ''abc'' = None"
  "is_space CHR ''-'' = False" "is_space CHR ''5'' = False" "is_space CHR ''0'' = False"
  "is_space CHR ''a'' = False" "is_space CHR ''b'' = False" "is_space CHR ''c'' = False"
  unfolding sample_float_def by code_simp+

theorem set_step_command_witness:
  "on_line scenario_robot sample_float ''s -5'' scenario_state silent =
     (Next, scenario_state, print [Txt ''Step size must be positive''] silent) \<and>
   on_line scenario_robot sample_float ''s 50'' scenario_state silent =
     (Next, scenario_state\<lparr>step_size := 50\<rparr>, print [Txt ''Step size set to '', Flt 50] silent) \<and>
   on_line scenario_robot sample_float ''s abc'' scenario_state silent =
     (Next, scenario_state, print [Txt ''Invalid step size format''] silent)"
  using set_step_command [where t = "''-5''" and fl = sample_float and x = "- 5"
      and rb = scenario_robot and st = scenario_state and w = silent]
    set_step_command [where t = "''50''" and fl = sample_float and x = 50
      and rb = scenario_robot and st = scenario_state and w = silent]
    set_step_command [where t = "''abc''" and fl = sample_float
      and rb = scenario_robot and st = scenario_state and w = silent]
  by (simp add: examples_s)

subsection \<open>The invariant\<close>

lemma read_all_frame:
  "case read_all rb js st w of (c, st', w') \<Rightarrow>
     selected_joint st' = selected_joint st \<and> step_size st' = step_size st"
proof (induction js arbitrary: st w)
  case Nil
  show ?case by simp
next
  case (Cons j js)
  show ?case
  proof (cases "read_present rb j w")
    case (Pair r w1)
    show ?thesis
    proof (cases r)
      case (Returned v)
      with Pair Cons.IH [of "st\<lparr>joint_positions := (joint_positions st)(j \<mapsto> v)\<rparr>"
          "print [Txt j, Txt '': '', Flt v] w1"]
      show ?thesis by simp
    next
      case (Raised e)
      with Pair Cons.IH [of st "print [Txt ''Error reading '', Txt j, Txt '': '', Msg e] w1"]
      show ?thesis by simp
    qed
  qed
qed

lemma select_joint_valid: "valid st \<Longrightarrow> valid (fst (snd (select_joint cmd st w)))"
  by (auto simp: select_joint_def Let_def valid_def split: option.splits)

lemma set_step_valid: "valid st \<Longrightarrow> valid (fst (snd (set_step fl cmd st w)))"
  by (auto simp: set_step_def Let_def valid_def split: option.splits)

lemma move_valid: "valid st \<Longrightarrow> valid (fst (snd (move op rb st w)))"
  using move_frame [where op = op and rb = rb and st = st and w = w]
  by (auto simp: valid_def split: prod.splits)

lemma read_all_valid: "valid st \<Longrightarrow> valid (fst (snd (read_all rb js st w)))"
  using read_all_frame [where rb = rb and js = js and st = st and w = w]
  by (auto simp: valid_def split: prod.splits)

lemma command_valid: "valid st \<Longrightarrow> valid (fst (snd (command rb fl cmd st w)))"
  unfolding command_def
  by (simp add: select_joint_valid set_step_valid move_valid read_all_valid del: startswith_Cons)

lemma loop_valid: "valid st \<Longrightarrow> valid (fst (snd (loop rb fl ks st w)))"
proof (induction ks arbitrary: st w)
  case Nil
  then show ?case
    by (simp split: prod.splits result.splits)
next
  case (Cons k ks)
  show ?case
  proof (cases "status st w")
    case (Pair r w1)
    show ?thesis
    proof (cases r)
      case (Raised e)
      with Pair Cons.prems show ?thesis by simp
    next
      case (Returned u)
      show ?thesis
      proof (cases k)
        case (Line l)
        obtain c st' w' where o: "on_line rb fl l st w1 = (c, st', w')"
          by (cases "on_line rb fl l st w1") auto
        have "valid st'"
          using command_valid [OF Cons.prems, of rb fl "lower (strip l)" w1] o
          by (simp add: on_line_def)
        then have "valid (fst (snd (loop rb fl ks st' w')))"
          by (rule Cons.IH)
        with Pair Returned Line o \<open>valid st'\<close> show ?thesis
          by (cases c) simp_all
      next
        case Interrupt
        with Pair Returned Cons.prems show ?thesis by simp
      next
        case EOF
        with Pair Returned Cons.prems show ?thesis by simp
      qed
    qed
  qed
qed

lemma initial_valid: "valid (initial_state jp)"
  by (simp add: valid_def initial_state_def joint_names_def)

text \<open>
  Claim C4. The state with which the loop starts is valid (the selected joint is one of
  the six, the step size is positive), and a valid state stays valid under every input
  line and under every run of the loop. A \<^verbatim>\<open>j\<close> line whose number is outside 1 to 6 and an
  \<^verbatim>\<open>s\<close> line whose number is not positive are answered by a message and change nothing.
\<close>

theorem invariant_preserved:
  assumes "valid st"
  shows "valid (initial_state jp) \<and>
     valid (fst (snd (on_line rb fl l st w))) \<and>
     valid (fst (snd (loop rb fl ks st w))) \<and>
     (startswith (lower (strip l)) ''j'' \<and> py_split (lower (strip l)) = a # t # ts \<and>
      py_int t = Some n \<and> (n < 1 \<or> 6 < n) \<longrightarrow>
        on_line rb fl l st w =
          (Next, st, print [Txt ''Invalid joint number. Use 1-'', Txt ''6''] w)) \<and>
     (startswith (lower (strip l)) ''s'' \<and> py_split (lower (strip l)) = a # t # ts \<and>
      float_of_str fl t = Some x \<and> x \<le> 0 \<longrightarrow>
        on_line rb fl l st w = (Next, st, print [Txt ''Step size must be positive''] w))"
proof -
  have "valid (fst (snd (on_line rb fl l st w)))"
    using assms by (simp add: on_line_def command_valid)
  moreover have "on_line rb fl l st w =
      (Next, st, print [Txt ''Invalid joint number. Use 1-'', Txt ''6''] w)"
    if "startswith (lower (strip l)) ''j''" "py_split (lower (strip l)) = a # t # ts"
      "py_int t = Some n" "n < 1 \<or> 6 < n"
    using that by (auto simp: on_line_def command_def select_joint_parts)
  moreover have "on_line rb fl l st w = (Next, st, print [Txt ''Step size must be positive''] w)"
    if "startswith (lower (strip l)) ''s''" "py_split (lower (strip l)) = a # t # ts"
      "float_of_str fl t = Some x" "x \<le> 0"
    using that by (auto simp: on_line_def command_def set_step_parts)
  ultimately show ?thesis
    using assms by (simp add: initial_valid loop_valid)
qed

lemma examples_reject:
  "lower (strip ''j 9'') = ''j 9''" "py_split ''j 9'' = [''j'', ''9'']" "py_int ''9'' = Some 9"
  "lower (strip ''s -5'') = ''s -5''" "py_split ''s -5'' = [''s'', ''-5'']"
  by code_simp+

lemma scenario_valid: "valid scenario_state"
  by (simp add: valid_def scenario_state_def joint_names_def)

theorem invariant_preserved_witness:
  "valid scenario_state \<and>
   valid (initial_state Map.empty) \<and>
   valid (fst (snd (on_line scenario_robot sample_float ''j 9'' scenario_state silent))) \<and>
   valid (fst (snd (loop scenario_robot sample_float [Line ''j 9'', Line ''s -5'', Line ''+'']
      scenario_state silent))) \<and>
   on_line scenario_robot sample_float ''j 9'' scenario_state silent =
     (Next, scenario_state, print [Txt ''Invalid joint number. Use 1-'', Txt ''6''] silent) \<and>
   on_line scenario_robot sample_float ''s -5'' scenario_state silent =
     (Next, scenario_state, print [Txt ''Step size must be positive''] silent)"
  using invariant_preserved [OF scenario_valid, where l = "''j 9''" and a = "''j''"
      and t = "''9''" and ts = "[]" and n = 9 and rb = scenario_robot and fl = sample_float
      and w = silent and jp = Map.empty
      and ks = "[Line ''j 9'', Line ''s -5'', Line ''+'']"]
    invariant_preserved [OF scenario_valid, where l = "''s -5''" and a = "''s''"
      and t = "''-5''" and ts = "[]" and x = "- 5" and rb = scenario_robot and fl = sample_float
      and w = silent]
  by (simp add: examples_reject examples_s scenario_valid)

subsection \<open>The start-up reads\<close>

lemma reply_Suc:
  assumes "events w1 = events w @ [Read ''Present_Position'' j]"
  shows "reply rb w (j # js) (Suc k) = reply rb w1 js k"
  using assms by (simp add: reply_def)

lemma read_present_reply:
  "read_present rb j w = (reply rb w (j # js) 0, emit (Read ''Present_Position'' j) w)"
  by (simp add: read_present_def motor_bus_read_def reply_def split: result.splits)

lemma read_initial_result:
  assumes "distinct js"
    and "\<forall>k<length js. \<forall>e. reply rb w js k = Raised e \<longrightarrow> is_Exception e"
  shows "case read_initial rb js jp w of (c, jp', w') \<Rightarrow>
     c = Next \<and>
     events w' = events w @ map (Read ''Present_Position'') js \<and>
     set (printed w) \<subseteq> set (printed w') \<and>
     (\<forall>j. j \<notin> set js \<longrightarrow> jp' j = jp j) \<and>
     (\<forall>k<length js.
        jp' (js ! k) = Some (case reply rb w js k of Returned v \<Rightarrow> v | Raised e \<Rightarrow> 0) \<and>
        (\<forall>e. reply rb w js k = Raised e \<longrightarrow>
           [Txt ''Error reading '', Txt (js ! k), Txt '': '', Msg e] \<in> set (printed w')))"
  using assms
proof (induction js arbitrary: jp w)
  case Nil
  show ?case by simp
next
  case (Cons j js)
  let ?w1 = "emit (Read ''Present_Position'' j) w"
  have rp: "read_present rb j w = (reply rb w (j # js) 0, ?w1)"
    by (rule read_present_reply)
  have d: "distinct js" "j \<notin> set js"
    using Cons.prems(1) by simp_all
  show ?case
  proof (cases "reply rb w (j # js) 0")
    case (Returned v)
    let ?w2 = "print [Txt j, Txt '': '', Flt v] ?w1"
    have ev: "events ?w2 = events w @ [Read ''Present_Position'' j]"
      by simp
    have ex: "\<forall>k<length js. \<forall>e. reply rb ?w2 js k = Raised e \<longrightarrow> is_Exception e"
      using Cons.prems(2) reply_Suc [OF ev, of rb js] by auto
    obtain c jp' w' where r: "read_initial rb js (jp(j \<mapsto> v)) ?w2 = (c, jp', w')"
      by (cases "read_initial rb js (jp(j \<mapsto> v)) ?w2") auto
    note Cons.IH [OF d(1) ex, of "jp(j \<mapsto> v)", unfolded r prod.case]
    then have ih: "c = Next" "events w' = events ?w2 @ map (Read ''Present_Position'') js"
      "set (printed ?w2) \<subseteq> set (printed w')"
      "\<forall>i. i \<notin> set js \<longrightarrow> jp' i = (jp(j \<mapsto> v)) i"
      "\<forall>k<length js.
        jp' (js ! k) = Some (case reply rb ?w2 js k of Returned v \<Rightarrow> v | Raised e \<Rightarrow> 0) \<and>
        (\<forall>e. reply rb ?w2 js k = Raised e \<longrightarrow>
           [Txt ''Error reading '', Txt (js ! k), Txt '': '', Msg e] \<in> set (printed w'))"
      by blast+
    have all: "\<forall>k<length (j # js).
        jp' ((j # js) ! k) = Some (case reply rb w (j # js) k of Returned v \<Rightarrow> v | Raised e \<Rightarrow> 0) \<and>
        (\<forall>e. reply rb w (j # js) k = Raised e \<longrightarrow>
           [Txt ''Error reading '', Txt ((j # js) ! k), Txt '': '', Msg e] \<in> set (printed w'))"
    proof (intro allI impI)
      fix k assume "k < length (j # js)"
      show "jp' ((j # js) ! k) = Some (case reply rb w (j # js) k of Returned v \<Rightarrow> v | Raised e \<Rightarrow> 0) \<and>
        (\<forall>e. reply rb w (j # js) k = Raised e \<longrightarrow>
           [Txt ''Error reading '', Txt ((j # js) ! k), Txt '': '', Msg e] \<in> set (printed w'))"
      proof (cases k)
        case 0
        with ih(4) d(2) Returned show ?thesis by simp
      next
        case (Suc k')
        with \<open>k < length (j # js)\<close> ih(5) reply_Suc [OF ev, of rb js k'] show ?thesis
          by simp
      qed
    qed
    have "read_initial rb (j # js) jp w = (c, jp', w')"
      using rp Returned r by simp
    moreover have "\<forall>i. i \<notin> set (j # js) \<longrightarrow> jp' i = jp i"
      using ih(4) by simp
    moreover have "set (printed w) \<subseteq> set (printed w')"
      using ih(3) by auto
    ultimately show ?thesis
      using ih(1,2) all by simp
  next
    case (Raised e)
    then have exn: "is_Exception e"
      using Cons.prems(2) by auto
    let ?l = "[Txt ''Error reading '', Txt j, Txt '': '', Msg e]"
    let ?w2 = "print ?l ?w1"
    have ev: "events ?w2 = events w @ [Read ''Present_Position'' j]"
      by simp
    have ex: "\<forall>k<length js. \<forall>e. reply rb ?w2 js k = Raised e \<longrightarrow> is_Exception e"
      using Cons.prems(2) reply_Suc [OF ev, of rb js] by auto
    obtain c jp' w' where r: "read_initial rb js (jp(j \<mapsto> 0)) ?w2 = (c, jp', w')"
      by (cases "read_initial rb js (jp(j \<mapsto> 0)) ?w2") auto
    note Cons.IH [OF d(1) ex, of "jp(j \<mapsto> 0)", unfolded r prod.case]
    then have ih: "c = Next" "events w' = events ?w2 @ map (Read ''Present_Position'') js"
      "set (printed ?w2) \<subseteq> set (printed w')"
      "\<forall>i. i \<notin> set js \<longrightarrow> jp' i = (jp(j \<mapsto> 0)) i"
      "\<forall>k<length js.
        jp' (js ! k) = Some (case reply rb ?w2 js k of Returned v \<Rightarrow> v | Raised e \<Rightarrow> 0) \<and>
        (\<forall>e. reply rb ?w2 js k = Raised e \<longrightarrow>
           [Txt ''Error reading '', Txt (js ! k), Txt '': '', Msg e] \<in> set (printed w'))"
      by blast+
    have logged: "?l \<in> set (printed w')"
      using ih(3) by auto
    have all: "\<forall>k<length (j # js).
        jp' ((j # js) ! k) = Some (case reply rb w (j # js) k of Returned v \<Rightarrow> v | Raised e \<Rightarrow> 0) \<and>
        (\<forall>e. reply rb w (j # js) k = Raised e \<longrightarrow>
           [Txt ''Error reading '', Txt ((j # js) ! k), Txt '': '', Msg e] \<in> set (printed w'))"
    proof (intro allI impI)
      fix k assume "k < length (j # js)"
      show "jp' ((j # js) ! k) = Some (case reply rb w (j # js) k of Returned v \<Rightarrow> v | Raised e \<Rightarrow> 0) \<and>
        (\<forall>e. reply rb w (j # js) k = Raised e \<longrightarrow>
           [Txt ''Error reading '', Txt ((j # js) ! k), Txt '': '', Msg e] \<in> set (printed w'))"
      proof (cases k)
        case 0
        with ih(4) d(2) Raised logged show ?thesis by simp
      next
        case (Suc k')
        with \<open>k < length (j # js)\<close> ih(5) reply_Suc [OF ev, of rb js k'] show ?thesis
          by simp
      qed
    qed
    have "read_initial rb (j # js) jp w = (c, jp', w')"
      using rp Raised exn r by simp
    moreover have "\<forall>i. i \<notin> set (j # js) \<longrightarrow> jp' i = jp i"
      using ih(4) by simp
    moreover have "set (printed w) \<subseteq> set (printed w')"
      using ih(3) by auto
    ultimately show ?thesis
      using ih(1,2) all by simp
  qed
qed

text \<open>
  Claim C7. If no read of the start-up is cut short by an exception that is not an
  \<^verbatim>\<open>Exception\<close> (Ctrl-C, for instance), the start-up reads every joint once, in the fixed
  order, and does not abort. A joint whose read or conversion raised has 0.0 in the
  cache and its error line in the output; every other joint has the value read.
\<close>

theorem startup_reads_all_joints:
  assumes "\<forall>k<length joint_names. \<forall>e. reply rb w joint_names k = Raised e \<longrightarrow> is_Exception e"
  shows "case read_initial rb joint_names jp w of (c, jp', w') \<Rightarrow>
     c = Next \<and>
     events w' = events w @ map (Read ''Present_Position'') joint_names \<and>
     (\<forall>k<length joint_names.
        jp' (joint_names ! k) =
          Some (case reply rb w joint_names k of Returned v \<Rightarrow> v | Raised e \<Rightarrow> 0) \<and>
        (\<forall>e. reply rb w joint_names k = Raised e \<longrightarrow>
           [Txt ''Error reading '', Txt (joint_names ! k), Txt '': '', Msg e] \<in> set (printed w')))"
proof -
  have "distinct joint_names"
    by (simp add: joint_names_def)
  from read_initial_result [OF this assms, of jp] show ?thesis
    by (simp split: prod.splits)
qed

lemma flaky_replies:
  "reply flaky_robot w joint_names 0 = Raised (Exception ''timeout'')"
  "reply flaky_robot w joint_names 5 = Returned 7"
  "\<forall>k<length joint_names. \<forall>e. reply flaky_robot w joint_names k = Raised e \<longrightarrow> is_Exception e"
  by (auto simp: reply_def flaky_robot_def position_of_def joint_names_def split: if_splits)

theorem startup_reads_all_joints_witness:
  "fst (read_initial flaky_robot joint_names Map.empty silent) = Next \<and>
   fst (snd (read_initial flaky_robot joint_names Map.empty silent)) ''shoulder_pan'' = Some 0 \<and>
   fst (snd (read_initial flaky_robot joint_names Map.empty silent)) ''gripper'' = Some 7 \<and>
   [Txt ''Error reading '', Txt ''shoulder_pan'', Txt '': '', Msg (Exception ''timeout'')]
     \<in> set (printed (snd (snd (read_initial flaky_robot joint_names Map.empty silent))))"
proof -
  obtain c jp' w' where r: "read_initial flaky_robot joint_names Map.empty silent = (c, jp', w')"
    by (cases "read_initial flaky_robot joint_names Map.empty silent") auto
  note t = startup_reads_all_joints [OF flaky_replies(3), where w = silent and jp = Map.empty,
      unfolded r prod.case]
  from t have k: "\<forall>k<length joint_names.
        jp' (joint_names ! k) =
          Some (case reply flaky_robot silent joint_names k of Returned v \<Rightarrow> v | Raised e \<Rightarrow> 0) \<and>
        (\<forall>e. reply flaky_robot silent joint_names k = Raised e \<longrightarrow>
           [Txt ''Error reading '', Txt (joint_names ! k), Txt '': '', Msg e] \<in> set (printed w'))"
    by blast
  have n: "joint_names ! 0 = ''shoulder_pan''" "joint_names ! 5 = ''gripper''"
    by (simp_all add: joint_names_def)
  from k [rule_format, of 0] k [rule_format, of 5] t show ?thesis
    by (simp add: r n flaky_replies)
qed

subsection \<open>Reading all positions again\<close>

lemma read_all_result:
  assumes "distinct js"
    and "\<forall>k<length js. \<forall>e. reply rb w js k = Raised e \<longrightarrow> is_Exception e"
  shows "case read_all rb js st w of (c, st', w') \<Rightarrow>
     c = Next \<and>
     events w' = events w @ map (Read ''Present_Position'') js \<and>
     set (printed w) \<subseteq> set (printed w') \<and>
     (\<forall>j. j \<notin> set js \<longrightarrow> joint_positions st' j = joint_positions st j) \<and>
     (\<forall>k<length js.
        joint_positions st' (js ! k) =
          (case reply rb w js k of
             Returned v \<Rightarrow> Some v
           | Raised e \<Rightarrow> joint_positions st (js ! k)) \<and>
        (\<forall>e. reply rb w js k = Raised e \<longrightarrow>
           [Txt ''Error reading '', Txt (js ! k), Txt '': '', Msg e] \<in> set (printed w')))"
  using assms
proof (induction js arbitrary: st w)
  case Nil
  show ?case by simp
next
  case (Cons j js)
  let ?w1 = "emit (Read ''Present_Position'' j) w"
  have rp: "read_present rb j w = (reply rb w (j # js) 0, ?w1)"
    by (rule read_present_reply)
  have d: "distinct js" "j \<notin> set js"
    using Cons.prems(1) by simp_all
  have step: "case read_all rb js st1 w2 of (c, st', w') \<Rightarrow>
     c = Next \<and>
     events w' = events w @ map (Read ''Present_Position'') (j # js) \<and>
     set (printed w) \<subseteq> set (printed w') \<and>
     (\<forall>i. i \<notin> set (j # js) \<longrightarrow> joint_positions st' i = joint_positions st i) \<and>
     (\<forall>k<length (j # js).
        joint_positions st' ((j # js) ! k) =
          (case reply rb w (j # js) k of
             Returned v \<Rightarrow> Some v
           | Raised e \<Rightarrow> joint_positions st ((j # js) ! k)) \<and>
        (\<forall>e. reply rb w (j # js) k = Raised e \<longrightarrow>
           [Txt ''Error reading '', Txt ((j # js) ! k), Txt '': '', Msg e] \<in> set (printed w')))"
    if ev: "events w2 = events w @ [Read ''Present_Position'' j]"
      and pr: "set (printed w) \<subseteq> set (printed w2)"
      and logged: "\<forall>e. reply rb w (j # js) 0 = Raised e \<longrightarrow>
           [Txt ''Error reading '', Txt j, Txt '': '', Msg e] \<in> set (printed w2)"
      and other: "\<forall>i. i \<noteq> j \<longrightarrow> joint_positions st1 i = joint_positions st i"
      and this_one: "joint_positions st1 j =
          (case reply rb w (j # js) 0 of
             Returned v \<Rightarrow> Some v
           | Raised e \<Rightarrow> joint_positions st j)"
    for st1 w2
  proof -
    have ex: "\<forall>k<length js. \<forall>e. reply rb w2 js k = Raised e \<longrightarrow> is_Exception e"
      using Cons.prems(2) reply_Suc [OF ev, of rb js] by auto
    obtain c st' w' where r: "read_all rb js st1 w2 = (c, st', w')"
      by (cases "read_all rb js st1 w2") auto
    note Cons.IH [OF d(1) ex, of st1, unfolded r prod.case]
    then have ih: "c = Next" "events w' = events w2 @ map (Read ''Present_Position'') js"
      "set (printed w2) \<subseteq> set (printed w')"
      "\<forall>i. i \<notin> set js \<longrightarrow> joint_positions st' i = joint_positions st1 i"
      "\<forall>k<length js.
        joint_positions st' (js ! k) =
          (case reply rb w2 js k of
             Returned v \<Rightarrow> Some v
           | Raised e \<Rightarrow> joint_positions st1 (js ! k)) \<and>
        (\<forall>e. reply rb w2 js k = Raised e \<longrightarrow>
           [Txt ''Error reading '', Txt (js ! k), Txt '': '', Msg e] \<in> set (printed w'))"
      by blast+
    have "joint_positions st' ((j # js) ! k) =
          (case reply rb w (j # js) k of
             Returned v \<Rightarrow> Some v
           | Raised e \<Rightarrow> joint_positions st ((j # js) ! k)) \<and>
        (\<forall>e. reply rb w (j # js) k = Raised e \<longrightarrow>
           [Txt ''Error reading '', Txt ((j # js) ! k), Txt '': '', Msg e] \<in> set (printed w'))"
      if "k < length (j # js)" for k
    proof (cases k)
      case 0
      have "\<forall>e. reply rb w (j # js) 0 = Raised e \<longrightarrow>
           [Txt ''Error reading '', Txt j, Txt '': '', Msg e] \<in> set (printed w')"
        using logged ih(3) by blast
      with 0 ih(4) d(2) this_one show ?thesis by (simp split: result.splits)
    next
      case (Suc k')
      then have "k' < length js"
        using that by simp
      then have "js ! k' \<noteq> j"
        using d(2) by auto
      with Suc \<open>k' < length js\<close> ih(5) other reply_Suc [OF ev, of rb js k'] show ?thesis
        by (simp split: result.splits)
    qed
    moreover have "\<forall>i. i \<notin> set (j # js) \<longrightarrow> joint_positions st' i = joint_positions st i"
      using ih(4) other by simp
    moreover have "set (printed w) \<subseteq> set (printed w')"
      using pr ih(3) by blast
    ultimately show ?thesis
      using ih(1,2) ev by (simp add: r)
  qed
  show ?case
  proof (cases "reply rb w (j # js) 0")
    case (Returned v)
    have eq: "read_all rb (j # js) st w =
        read_all rb js (st\<lparr>joint_positions := (joint_positions st)(j \<mapsto> v)\<rparr>)
          (print [Txt j, Txt '': '', Flt v] ?w1)"
      using rp Returned by simp
    show ?thesis
      unfolding eq by (rule step) (auto simp: Returned)
  next
    case (Raised e)
    then have "is_Exception e"
      using Cons.prems(2) by auto
    with rp Raised have eq: "read_all rb (j # js) st w =
        read_all rb js st (print [Txt ''Error reading '', Txt j, Txt '': '', Msg e] ?w1)"
      by simp
    show ?thesis
      unfolding eq by (rule step) (auto simp: Raised)
  qed
qed

text \<open>
  Claim C2, as the code has it. If no read of the command \<^verbatim>\<open>r\<close> is cut short by an
  exception that is not an \<^verbatim>\<open>Exception\<close>, the command reads every joint once, in the fixed
  order, raises nothing and lets the loop go on. A joint whose read or conversion raised
  keeps the cache entry it had, and its error line is in the output; every other joint
  gets the value read. Selection and step size are unchanged.
\<close>

theorem read_all_keeps_failed_entries:
  assumes "\<forall>k<length joint_names. \<forall>e. reply rb w joint_names k = Raised e \<longrightarrow> is_Exception e"
  shows "case command rb fl ''r'' st w of (c, st', w') \<Rightarrow>
     c = Next \<and>
     events w' = events w @ map (Read ''Present_Position'') joint_names \<and>
     selected_joint st' = selected_joint st \<and> step_size st' = step_size st \<and>
     (\<forall>k<length joint_names.
        joint_positions st' (joint_names ! k) =
          (case reply rb w joint_names k of
             Returned v \<Rightarrow> Some v
           | Raised e \<Rightarrow> joint_positions st (joint_names ! k)) \<and>
        (\<forall>e. reply rb w joint_names k = Raised e \<longrightarrow>
           [Txt ''Error reading '', Txt (joint_names ! k), Txt '': '', Msg e] \<in> set (printed w')))"
proof -
  let ?w0 = "print [Txt (CHR 0x0A # ''Reading all positions...'')] w"
  have c: "command rb fl ''r'' st w = read_all rb joint_names st ?w0"
    by (simp add: command_def)
  have "distinct joint_names"
    by (simp add: joint_names_def)
  moreover have "\<forall>k<length joint_names. \<forall>e.
      reply rb ?w0 joint_names k = Raised e \<longrightarrow> is_Exception e"
    using assms by (simp add: reply_def)
  ultimately have "case read_all rb joint_names st ?w0 of (c, st', w') \<Rightarrow>
     c = Next \<and>
     events w' = events ?w0 @ map (Read ''Present_Position'') joint_names \<and>
     set (printed ?w0) \<subseteq> set (printed w') \<and>
     (\<forall>j. j \<notin> set joint_names \<longrightarrow> joint_positions st' j = joint_positions st j) \<and>
     (\<forall>k<length joint_names.
        joint_positions st' (joint_names ! k) =
          (case reply rb ?w0 joint_names k of
             Returned v \<Rightarrow> Some v
           | Raised e \<Rightarrow> joint_positions st (joint_names ! k)) \<and>
        (\<forall>e. reply rb ?w0 joint_names k = Raised e \<longrightarrow>
           [Txt ''Error reading '', Txt (joint_names ! k), Txt '': '', Msg e] \<in> set (printed w')))"
    by (rule read_all_result)
  moreover have "reply rb ?w0 joint_names k = reply rb w joint_names k" for k
    by (simp add: reply_def)
  ultimately show ?thesis
    using read_all_frame [where rb = rb and js = joint_names and st = st and w = ?w0]
    by (simp add: c split: prod.splits)
qed

theorem read_all_keeps_failed_entries_witness:
  "fst (command flaky_robot sample_float ''r'' scenario_state silent) = Next \<and>
   joint_positions (fst (snd (command flaky_robot sample_float ''r'' scenario_state silent)))
     ''shoulder_pan'' = Some 100 \<and>
   joint_positions (fst (snd (command flaky_robot sample_float ''r'' scenario_state silent)))
     ''gripper'' = Some 7 \<and>
   [Txt ''Error reading '', Txt ''shoulder_pan'', Txt '': '', Msg (Exception ''timeout'')]
     \<in> set (printed (snd (snd (command flaky_robot sample_float ''r'' scenario_state silent))))"
proof -
  obtain c st' w' where
    r: "command flaky_robot sample_float ''r'' scenario_state silent = (c, st', w')"
    by (cases "command flaky_robot sample_float ''r'' scenario_state silent") auto
  note t = read_all_keeps_failed_entries [OF flaky_replies(3), where w = silent
      and fl = sample_float and st = scenario_state, unfolded r prod.case]
  from t have k: "\<forall>k<length joint_names.
        joint_positions st' (joint_names ! k) =
          (case reply flaky_robot silent joint_names k of
             Returned v \<Rightarrow> Some v
           | Raised e \<Rightarrow> joint_positions scenario_state (joint_names ! k)) \<and>
        (\<forall>e. reply flaky_robot silent joint_names k = Raised e \<longrightarrow>
           [Txt ''Error reading '', Txt (joint_names ! k), Txt '': '', Msg e] \<in> set (printed w'))"
    by blast
  have n: "joint_names ! 0 = ''shoulder_pan''" "joint_names ! 5 = ''gripper''"
    by (simp_all add: joint_names_def)
  have s: "joint_positions scenario_state ''shoulder_pan'' = Some 100"
    by (simp add: scenario_state_def joint_names_def)
  from k [rule_format, of 0] k [rule_format, of 5] t show ?thesis
    by (simp add: r n s flaky_replies)
qed

text \<open>
  Claim C2 as it is written fails: with 100.0 cached for the first joint and a read of
  that joint that raises, the cache holds 100.0 after the command \<^verbatim>\<open>r\<close>, not 0.0.
\<close>

theorem read_all_reset_counterexample:
  "bus_read flaky_robot (events silent) ''Present_Position'' ''shoulder_pan''
     = Raised (Exception ''timeout'') \<and>
   joint_positions (fst (snd (command flaky_robot sample_float ''r'' scenario_state silent)))
     ''shoulder_pan'' = Some 100 \<and>
   joint_positions (fst (snd (command flaky_robot sample_float ''r'' scenario_state silent)))
     ''shoulder_pan'' \<noteq> Some 0"
proof -
  have "command flaky_robot sample_float ''r'' scenario_state silent =
      read_all flaky_robot joint_names scenario_state
        (print [Txt (CHR 0x0A # ''Reading all positions...'')] silent)"
    by (simp add: command_def)
  moreover have "joint_positions (fst (snd (read_all flaky_robot joint_names scenario_state w)))
      ''shoulder_pan'' = Some 100" for w
    by (simp add: joint_names_def read_present_def motor_bus_read_def flaky_robot_def
        position_of_def scenario_state_def)
  ultimately show ?thesis
    by (simp add: flaky_robot_def)
qed

subsection \<open>Leaving the loop\<close>

lemma continues_iff:
  "continues w w' \<longleftrightarrow> (\<exists>es. events w' = events w @ es \<and> Disconnect \<notin> set es)"
proof
  assume c: "continues w w'"
  then have "events w' = events w @ new_events w w'"
    unfolding continues_def new_events_def by (metis append_take_drop_id)
  moreover from c have "Disconnect \<notin> set (new_events w w')"
    by (simp add: continues_def)
  ultimately show "\<exists>es. events w' = events w @ es \<and> Disconnect \<notin> set es"
    by blast
next
  assume "\<exists>es. events w' = events w @ es \<and> Disconnect \<notin> set es"
  then show "continues w w'"
    by (auto simp: continues_def new_events_def)
qed

lemma continues_refl [simp]: "continues w w"
  by (simp add: continues_iff)

lemma continues_trans: "continues w w1 \<Longrightarrow> continues w1 w2 \<Longrightarrow> continues w w2"
  by (auto simp: continues_iff)

lemma continues_print [simp]: "continues w (print l w') = continues w w'"
  by (simp add: continues_iff)

lemma continues_emit: "continues w w' \<Longrightarrow> ev \<noteq> Disconnect \<Longrightarrow> continues w (emit ev w')"
  by (auto simp: continues_iff)

lemma continues_move: "continues w (snd (snd (move op rb st w)))"
  by (auto simp: move_def move_failed_def Let_def motor_bus_write_def read_present_def
      motor_bus_read_def sleep_def continues_emit
      split: option.splits result.splits prod.splits)

lemma continues_read_all: "continues w0 w \<Longrightarrow> continues w0 (snd (snd (read_all rb js st w)))"
proof (induction js arbitrary: st w)
  case Nil
  then show ?case by simp
next
  case (Cons j js)
  have "continues w0 (emit (Read ''Present_Position'' j) w)"
    using Cons.prems by (simp add: continues_emit)
  then show ?case
    using Cons.IH
    by (simp add: read_present_reply [where js = js] split: result.splits)
qed

lemma continues_command: "continues w (snd (snd (command rb fl cmd st w)))"
  unfolding command_def
  by (simp add: continues_move continues_read_all select_joint_def set_step_def Let_def
      del: startswith_Cons split: option.splits)

lemma continues_status: "continues w0 w \<Longrightarrow> continues w0 (snd (status st w))"
  by (simp add: status_def Let_def split: option.splits)

lemma continues_loop: "continues w0 w \<Longrightarrow> continues w0 (snd (snd (loop rb fl ks st w)))"
proof (induction ks arbitrary: st w)
  case Nil
  obtain r w1 where s: "status st w = (r, w1)"
    by (cases "status st w") auto
  then have "continues w0 w1"
    using continues_status [OF Nil, of st] by simp
  with s show ?case
    by (cases r) simp_all
next
  case (Cons k ks)
  obtain r w1 where s: "status st w = (r, w1)"
    by (cases "status st w") auto
  then have w1: "continues w0 w1"
    using continues_status [OF Cons.prems, of st] by simp
  show ?case
  proof (cases r)
    case (Raised e)
    with s w1 show ?thesis by simp
  next
    case (Returned u)
    show ?thesis
    proof (cases k)
      case (Line l)
      obtain c st' w' where o: "on_line rb fl l st w1 = (c, st', w')"
        by (cases "on_line rb fl l st w1") auto
      have "continues w1 w'"
        using continues_command [of w1 rb fl "lower (strip l)" st] o
        by (simp add: on_line_def)
      with w1 have w': "continues w0 w'"
        by (rule continues_trans)
      then have "continues w0 (snd (snd (loop rb fl ks st' w')))"
        by (rule Cons.IH)
      with s Returned Line o w' show ?thesis
        by (cases c) simp_all
    next
      case Interrupt
      with s Returned w1 show ?thesis by simp
    next
      case EOF
      with s Returned w1 show ?thesis by simp
    qed
  qed
qed

lemma events_finally:
  "finally_disconnect rb w = (r, w') \<Longrightarrow>
     events w' = events w @ (if is_connected rb (events w) then [Disconnect] else [])"
  by (auto simp: finally_disconnect_def Let_def split: result.splits if_splits)

text \<open>
  Claim C9. Once the loop has been left, by \<^verbatim>\<open>q\<close>, by Ctrl-C or by any other exception
  that leaves the loop body, the \<^verbatim>\<open>try\<close> statement adds to the events of the loop exactly
  one \<open>Disconnect\<close> if the robot is connected at that moment, and nothing otherwise; the
  loop itself never disconnects.
\<close>

theorem disconnect_on_exit:
  assumes "fst (loop rb fl ks st w) \<noteq> Next"
  shows "events (snd (snd (console rb fl ks st w))) =
       events (snd (snd (loop rb fl ks st w))) @
         (if is_connected rb (events (snd (snd (loop rb fl ks st w)))) then [Disconnect] else [])
     \<and> Disconnect \<notin> set (new_events w (snd (snd (loop rb fl ks st w))))"
proof -
  obtain c st' w' where l: "loop rb fl ks st w = (c, st', w')"
    by (cases "loop rb fl ks st w") auto
  have "continues w w'"
    using continues_loop [of w w rb fl ks st] l by simp
  then have no: "Disconnect \<notin> set (new_events w w')"
    by (simp add: continues_def)
  have "events (snd (snd (console rb fl ks st w))) =
      events w' @ (if is_connected rb (events w') then [Disconnect] else [])"
  proof (cases c)
    case Next
    with assms l show ?thesis by simp
  next
    case Break
    obtain r w'' where f: "finally_disconnect rb w' = (r, w'')"
      by (cases "finally_disconnect rb w'") auto
    with l Break events_finally [OF f] show ?thesis
      by (cases r) (simp_all add: console_def)
  next
    case (Raise e)
    let ?w = "print [Txt (CHR 0x0A # ''Program interrupted by user'')] w'"
    obtain r w'' where f: "finally_disconnect rb w' = (r, w'')"
      by (cases "finally_disconnect rb w'") auto
    obtain r2 w2 where f2: "finally_disconnect rb ?w = (r2, w2)"
      by (cases "finally_disconnect rb ?w") auto
    from l Raise f f2 events_finally [OF f] events_finally [OF f2] show ?thesis
      by (cases r; cases r2) (simp_all add: console_def)
  qed
  with no l show ?thesis by simp
qed

lemma status_scenario:
  "status scenario_state w = (Returned (),
     print [Txt ''Step size: '', Flt 300] (print [Txt ''Current position: '', Flt 100]
       (print [Txt (CHR 0x0A # ''Selected joint: ''), Txt ''shoulder_pan''] w)))"
  by (simp add: status_def scenario_state_def joint_names_def)

lemma strip_q: "lower (strip ''q'') = ''q''"
  by code_simp

lemma examples_exit:
  "fst (loop rb fl [Line ''q''] scenario_state silent) = Break"
  "events (snd (snd (loop rb fl [Line ''q''] scenario_state silent))) = []"
  "fst (loop rb fl [Interrupt] scenario_state silent) = Raise KeyboardInterrupt"
  "events (snd (snd (loop rb fl [Interrupt] scenario_state silent))) = []"
  "fst (loop rb fl [EOF] scenario_state silent) = Raise EOFError"
  "events (snd (snd (loop rb fl [EOF] scenario_state silent))) = []"
  by (simp_all add: status_scenario on_line_def strip_q command_def silent_def)

theorem disconnect_on_exit_witness:
  "fst (loop scenario_robot sample_float [Line ''q''] scenario_state silent) = Break \<and>
   events (snd (snd (console scenario_robot sample_float [Line ''q''] scenario_state silent)))
     = [Disconnect] \<and>
   fst (loop scenario_robot sample_float [Interrupt] scenario_state silent)
     = Raise KeyboardInterrupt \<and>
   events (snd (snd (console scenario_robot sample_float [Interrupt] scenario_state silent)))
     = [Disconnect] \<and>
   fst (loop scenario_robot sample_float [EOF] scenario_state silent) = Raise EOFError \<and>
   events (snd (snd (console scenario_robot sample_float [EOF] scenario_state silent)))
     = [Disconnect] \<and>
   events (snd (snd (console (scenario_robot\<lparr>is_connected := \<lambda>h. False\<rparr>) sample_float
      [Line ''q''] scenario_state silent))) = []"
proof -
  have c: "is_connected scenario_robot [] = True"
    "is_connected (scenario_robot\<lparr>is_connected := \<lambda>h. False\<rparr>) [] = False"
    by (simp_all add: scenario_robot_def)
  from disconnect_on_exit [where rb = scenario_robot and fl = sample_float
      and ks = "[Line ''q'']" and st = scenario_state and w = silent]
    disconnect_on_exit [where rb = scenario_robot and fl = sample_float
      and ks = "[Interrupt]" and st = scenario_state and w = silent]
    disconnect_on_exit [where rb = scenario_robot and fl = sample_float
      and ks = "[EOF]" and st = scenario_state and w = silent]
    disconnect_on_exit [where rb = "scenario_robot\<lparr>is_connected := \<lambda>h. False\<rparr>"
      and fl = sample_float and ks = "[Line ''q'']" and st = scenario_state and w = silent]
  show ?thesis
    by (simp add: examples_exit c del: loop.simps)
qed

end
